theory Spec2Isabelle
  imports Main
begin

section \<open>Python strings\<close>

text \<open>
  Strings are ASCII strings (\<open>char list\<close>). Only the string methods the two
  lead generators call are modelled: \<open>lower\<close>, \<open>replace\<close> with a one-character
  pattern, the substring test \<open>in\<close>, \<open>startswith\<close>, \<open>split\<close> (on whitespace and on a
  separator) and \<open>join\<close>.
\<close>

definition lower_char :: "char \<Rightarrow> char" where
  "lower_char c =
     (case map_of (zip ''ABCDEFGHIJKLMNOPQRSTUVWXYZ'' ''abcdefghijklmnopqrstuvwxyz'') c of
        Some d \<Rightarrow> d
      | None \<Rightarrow> c)"

definition lower :: "string \<Rightarrow> string" where
  "lower s = map lower_char s"

text \<open>\<open>s.replace(c, new)\<close> for a pattern \<open>c\<close> of one character.\<close>

definition replace :: "char \<Rightarrow> string \<Rightarrow> string \<Rightarrow> string" where
  "replace c new s = concat (map (\<lambda>x. if x = c then new else [x]) s)"

text \<open>\<open>s.startswith(p)\<close>.\<close>

fun startswith :: "string \<Rightarrow> string \<Rightarrow> bool" where
  "startswith s [] = True"
| "startswith [] (p # ps) = False"
| "startswith (c # s) (p # ps) = (c = p \<and> startswith s ps)"

text \<open>\<open>p in s\<close>: \<open>p\<close> occurs in \<open>s\<close> as a contiguous substring.\<close>

fun str_in :: "string \<Rightarrow> string \<Rightarrow> bool" where
  "str_in p [] = (p = [])"
| "str_in p (c # s) = (startswith (c # s) p \<or> str_in p s)"

text \<open>\<open>any(p in s for p in ps)\<close>.\<close>

definition any_in :: "string list \<Rightarrow> string \<Rightarrow> bool" where
  "any_in ps s = list_ex (\<lambda>p. str_in p s) ps"

text \<open>
  \<open>s.split(sep)\<close> for a non-empty separator. The counter \<open>k\<close> is the number of
  characters of the separator just matched that are still to be skipped.
\<close>

fun split_go :: "string \<Rightarrow> nat \<Rightarrow> string \<Rightarrow> string \<Rightarrow> string list" where
  "split_go sep k acc [] = [rev acc]"
| "split_go sep k acc (c # s) =
     (if 0 < k then split_go sep (k - 1) acc s
      else if startswith (c # s) sep then rev acc # split_go sep (length sep - 1) [] s
      else split_go sep 0 (c # acc) s)"

definition split :: "string \<Rightarrow> string \<Rightarrow> string list" where
  "split sep s = split_go sep 0 [] s"

text \<open>\<open>s.split()\<close>: the words of \<open>s\<close> between runs of ASCII whitespace.\<close>

definition isspace :: "char \<Rightarrow> bool" where
  "isspace c = (let n = (of_char c :: nat) in (9 \<le> n \<and> n \<le> 13) \<or> (28 \<le> n \<and> n \<le> 32))"

fun words_go :: "string \<Rightarrow> string \<Rightarrow> string list" where
  "words_go acc [] = (if acc = [] then [] else [rev acc])"
| "words_go acc (c # s) =
     (if isspace c then (if acc = [] then words_go [] s else rev acc # words_go [] s)
      else words_go (c # acc) s)"

definition split_ws :: "string \<Rightarrow> string list" where
  "split_ws s = words_go [] s"

text \<open>\<open>sep.join(xs)\<close>.\<close>

fun join :: "string \<Rightarrow> string list \<Rightarrow> string" where
  "join sep [] = []"
| "join sep [x] = x"
| "join sep (x # y # ys) = x @ sep @ join sep (y # ys)"

section \<open>Python sets\<close>

text \<open>
  A \<open>set\<close> of strings is a duplicate-free list, in insertion order. Python iterates
  a set in the order of its hash table, which the program does not control: the
  iteration order is a parameter \<open>ord\<close> that gives every element of a given set a
  rank, and the set is iterated by rank. Every order of the elements is the
  iteration order for some \<open>ord\<close>.
\<close>

type_synonym pyset = "string list"

type_synonym set_order = "string list \<Rightarrow> string \<Rightarrow> nat"

definition set_add :: "string \<Rightarrow> pyset \<Rightarrow> pyset" where
  "set_add x xs = (if x \<in> set xs then xs else xs @ [x])"

definition set_update :: "pyset \<Rightarrow> string list \<Rightarrow> pyset" where
  "set_update xs ys = fold set_add ys xs"

definition set_of :: "string list \<Rightarrow> pyset" where
  "set_of ys = set_update [] ys"

definition set_iter :: "set_order \<Rightarrow> pyset \<Rightarrow> string list" where
  "set_iter ord xs = sort_key (ord xs) xs"

section \<open>Configuration, the outside world and the generator's state\<close>

text \<open>The entries of \<open>CONFIG\<close> that the lead-discovery pipeline reads.\<close>

record config =
  max_emails_per_company :: nat
  contact_keywords :: "string list"
  email_domains :: "string list"
  ignore_email_patterns :: "string list"

definition CONFIG :: config where
  "CONFIG = \<lparr>
     max_emails_per_company = 5,
     contact_keywords = [''contact'', ''about'', ''team'', ''connect'', ''reach'', ''sales'',
       ''support'', ''help''],
     email_domains = [''com'', ''io'', ''ai'', ''co'', ''org'', ''net'', ''us'', ''uk'', ''ca''],
     ignore_email_patterns = [''noreply'', ''no-reply'', ''support'', ''info'', ''hello'',
       ''mailer'', ''notification'']\<rparr>"

definition CONFIG_agent :: config where
  "CONFIG_agent = \<lparr>
     max_emails_per_company = 5,
     contact_keywords = [''contact'', ''about'', ''team'', ''connect'', ''reach'', ''sales''],
     email_domains = [''com'', ''io'', ''ai'', ''co'', ''org'', ''net'', ''us'', ''uk'', ''ca'',
       ''de'', ''fr'', ''au''],
     ignore_email_patterns = [''noreply'', ''no-reply'', ''support'', ''info'', ''hello'',
       ''mailer'']\<rparr>"

text \<open>
  The answer to \<open>requests.head(url, ..., allow_redirects=True)\<close>: an exception, or the
  status code of the final response.
\<close>

datatype response = Raised | Status int

text \<open>
  What the program reads from a page it fetched with \<open>session.get\<close> and parsed with
  BeautifulSoup: the regex matches in the visible text, the \<open>href\<close>s of the
  \<open>mailto:\<close> links, the regex matches in every form and in every element selected
  by class or id, and every hyperlink as its text and its \<open>href\<close>.
\<close>

record page =
  text_emails :: "string list"
  mailto_hrefs :: "string list"
  form_emails :: "string list list"
  element_emails :: "string list list"
  links :: "(string \<times> string) list"

text \<open>One result of the search API: its \<open>url\<close> and the regex matches in its \<open>content\<close>.\<close>

record search_result =
  result_url :: "string option"
  content_emails :: "string list option"

text \<open>Python values that a lead record of the AI variant holds.\<close>

datatype pyval = PStr string | PInt int | PJson string

text \<open>
  What the JSON output parser hands back for an insight request: an exception, a JSON
  object (its items, in order), or a JSON value that is not an object.
\<close>

datatype llm_answer = LlmRaised | LlmObject "(string \<times> pyval) list" | LlmOther

text \<open>
  The world outside the program. Every answer depends on the moment of the call, the
  number of outside calls the run has made so far, so that a server may answer the same
  request differently at different times.
\<close>

record env =
  head_status :: "nat \<Rightarrow> string \<Rightarrow> response"
  get_page :: "nat \<Rightarrow> string \<Rightarrow> page option"
  search_invoke :: "nat \<Rightarrow> string \<Rightarrow> search_result list option"
  llm_insights :: "nat \<Rightarrow> string \<Rightarrow> string \<Rightarrow> llm_answer"
  now :: "nat \<Rightarrow> string"
  email_regex_match :: "string \<Rightarrow> bool"
  urljoin :: "string \<Rightarrow> string \<Rightarrow> string"
  netloc :: "string \<Rightarrow> string"
  set_order :: set_order

text \<open>
  The state of one generator: the ProbeCache \<open>processed_urls\<close>, the number of outside
  calls made so far, and the URLs of the HEAD requests the prober has issued, in order.
\<close>

record state =
  processed_urls :: "string set"
  clock :: nat
  head_log :: "string list"

definition init_state :: state where
  "init_state = \<lparr>processed_urls = {}, clock = 0, head_log = []\<rparr>"

definition tick :: "state \<Rightarrow> state" where
  "tick s = s\<lparr>clock := Suc (clock s)\<rparr>"

section \<open>The URL prober\<close>

text \<open>
  The block under the lock: a URL of the cache is refused, a new one is recorded.
  The result is whether the call goes on to the network.
\<close>

definition lock_section :: "state \<Rightarrow> string \<Rightarrow> bool \<times> state" where
  "lock_section s url =
     (if url \<in> processed_urls s then (False, s)
      else (True, s\<lparr>processed_urls := insert url (processed_urls s)\<rparr>))"

text \<open>The HEAD request: it is logged, and the world answers.\<close>

definition head_request :: "env \<Rightarrow> state \<Rightarrow> string \<Rightarrow> response \<times> state" where
  "head_request w s url =
     (head_status w (clock s) url, tick (s\<lparr>head_log := head_log s @ [url]\<rparr>))"

text \<open>The body of the \<open>try\<close>: \<open>Inl\<close> is an exception on its way out.\<close>

definition check_url_exists_try :: "env \<Rightarrow> state \<Rightarrow> string \<Rightarrow> (unit + bool) \<times> state" where
  "check_url_exists_try w s url =
     (case lock_section s url of
        (False, s1) \<Rightarrow> (Inr False, s1)
      | (True, s1) \<Rightarrow>
          (case head_request w s1 url of
             (Raised, s2) \<Rightarrow> (Inl (), s2)
           | (Status code, s2) \<Rightarrow> (Inr (code = 200), s2)))"

text \<open>\<open>check_url_exists\<close>: the bare \<open>except\<close> turns every exception into \<open>False\<close>.\<close>

definition check_url_exists :: "env \<Rightarrow> state \<Rightarrow> string \<Rightarrow> bool \<times> state" where
  "check_url_exists w s url =
     (case check_url_exists_try w s url of
        (Inl e, s1) \<Rightarrow> (False, s1)
      | (Inr b, s1) \<Rightarrow> (b, s1))"

text \<open>A sequence of probe calls, one after the other.\<close>

fun probe_all :: "env \<Rightarrow> state \<Rightarrow> string list \<Rightarrow> bool list \<times> state" where
  "probe_all w s [] = ([], s)"
| "probe_all w s (url # urls) =
     (case check_url_exists w s url of
        (b, s1) \<Rightarrow> (case probe_all w s1 urls of (bs, s2) \<Rightarrow> (b # bs, s2)))"

text \<open>
  Calls running at once: the lock makes the block under it one step, and the request
  of a call that passed the block is a later step, so between the two steps of one call
  other calls may run. \<open>Enter url\<close> is the block under the lock of a call for
  \<open>url\<close>; \<open>Request url\<close> is the HEAD request of a call for \<open>url\<close> that has passed
  the block and has not sent its request yet (it does nothing when there is no such
  call). The second component of the state lists the calls between their two steps.
\<close>

datatype event = Enter string | Request string

fun event_step :: "env \<Rightarrow> state \<times> string list \<Rightarrow> event \<Rightarrow> state \<times> string list" where
  "event_step w (s, pending) (Enter url) =
     (case lock_section s url of
        (False, s1) \<Rightarrow> (s1, pending)
      | (True, s1) \<Rightarrow> (s1, pending @ [url]))"
| "event_step w (s, pending) (Request url) =
     (if url \<in> set pending then (snd (head_request w s url), remove1 url pending)
      else (s, pending))"

definition run_events :: "env \<Rightarrow> state \<Rightarrow> event list \<Rightarrow> state \<times> string list" where
  "run_events w s evs = foldl (event_step w) (s, []) evs"

section \<open>Fetching a page\<close>

text \<open>
  \<open>session.get\<close> followed by the parse; \<open>None\<close> is an exception raised by either.
\<close>

definition fetch_page :: "env \<Rightarrow> state \<Rightarrow> string \<Rightarrow> page option \<times> state" where
  "fetch_page w s url = (get_page w (clock s) url, tick s)"

text \<open>
  \<open>xs[i]\<close>, with \<open>None\<close> for the IndexError, and \<open>s.split(sep)[0]\<close>, which always
  exists.
\<close>

fun index :: "'a list \<Rightarrow> nat \<Rightarrow> 'a option" where
  "index [] i = None"
| "index (x # xs) 0 = Some x"
| "index (x # xs) (Suc i) = index xs i"

definition first_field :: "string \<Rightarrow> string \<Rightarrow> string" where
  "first_field sep s = (case split sep s of [] \<Rightarrow> [] | x # xs \<Rightarrow> x)"

section \<open>The email extractor\<close>

text \<open>
  The candidate set of the base variant: the matches in the text, the addresses of the
  \<open>mailto:\<close> links that the regex accepts, the matches in the forms, and the matches
  in the elements selected by class or id.
\<close>

definition add_mailto :: "env \<Rightarrow> string \<Rightarrow> pyset \<Rightarrow> pyset" where
  "add_mailto w href emails =
     (let email = first_field ''?'' (drop 7 href)
      in if email_regex_match w email then set_add email emails else emails)"

definition candidate_emails :: "env \<Rightarrow> page \<Rightarrow> pyset" where
  "candidate_emails w pg =
     (let emails = set_of (text_emails pg);
          emails = fold (add_mailto w) (mailto_hrefs pg) emails;
          emails = fold (\<lambda>form_emails es. set_update es form_emails) (form_emails pg) emails;
          emails = fold (\<lambda>element_emails es. set_update es element_emails) (element_emails pg) emails
      in emails)"

text \<open>The AI variant has no fourth method.\<close>

definition candidate_emails_agent :: "env \<Rightarrow> page \<Rightarrow> pyset" where
  "candidate_emails_agent w pg =
     (let emails = set_of (text_emails pg);
          emails = fold (add_mailto w) (mailto_hrefs pg) emails;
          emails = fold (\<lambda>form_emails es. set_update es form_emails) (form_emails pg) emails
      in emails)"

text \<open>
  The body of the \<open>try\<close> of \<open>extract_emails_from_page\<close>; \<open>Inl\<close> is an exception of
  the fetch or the parse.
\<close>

definition extract_emails_try :: "config \<Rightarrow> env \<Rightarrow> state \<Rightarrow> string \<Rightarrow> (unit + string list) \<times> state" where
  "extract_emails_try cfg w s url =
     (case fetch_page w s url of
        (None, s1) \<Rightarrow> (Inl (), s1)
      | (Some pg, s1) \<Rightarrow>
          (let emails = candidate_emails w pg;
               filtered_emails =
                 filter (\<lambda>email. \<not> any_in (ignore_email_patterns cfg) (lower email))
                   (set_iter (set_order w) emails)
           in (Inr (take (max_emails_per_company cfg) filtered_emails), s1)))"

definition extract_emails_from_page :: "config \<Rightarrow> env \<Rightarrow> state \<Rightarrow> string \<Rightarrow> string list \<times> state" where
  "extract_emails_from_page cfg w s url =
     (case extract_emails_try cfg w s url of
        (Inl e, s1) \<Rightarrow> ([], s1)
      | (Inr emails, s1) \<Rightarrow> (emails, s1))"

definition extract_emails_try_agent :: "config \<Rightarrow> env \<Rightarrow> state \<Rightarrow> string \<Rightarrow> (unit + string list) \<times> state" where
  "extract_emails_try_agent cfg w s url =
     (case fetch_page w s url of
        (None, s1) \<Rightarrow> (Inl (), s1)
      | (Some pg, s1) \<Rightarrow>
          (let emails = candidate_emails_agent w pg;
               filtered_emails =
                 map lower
                   (filter (\<lambda>e. \<not> any_in (ignore_email_patterns cfg) (lower e))
                      (set_iter (set_order w) emails))
           in (Inr (take (max_emails_per_company cfg) filtered_emails), s1)))"

definition extract_emails_from_page_agent :: "config \<Rightarrow> env \<Rightarrow> state \<Rightarrow> string \<Rightarrow> string list \<times> state" where
  "extract_emails_from_page_agent cfg w s url =
     (case extract_emails_try_agent cfg w s url of
        (Inl e, s1) \<Rightarrow> ([], s1)
      | (Inr emails, s1) \<Rightarrow> (emails, s1))"

section \<open>The domain resolver\<close>

text \<open>
  The acronym takes \<open>word[0]\<close> of every word of \<open>company_name.split()\<close>; no such word
  is empty, so \<open>take 1 word\<close> is that character.
\<close>

definition acronym :: "string \<Rightarrow> string" where
  "acronym company_name = lower (concat (map (take 1) (split_ws company_name)))"

definition base_names :: "string \<Rightarrow> string list" where
  "base_names company_name =
     [replace CHR '' '' [] (lower company_name),
      replace CHR '' '' ''-'' (lower company_name),
      acronym company_name]"

definition name_variations :: "string \<Rightarrow> string list" where
  "name_variations company_name =
     [replace CHR '' '' [] (lower company_name),
      replace CHR '' '' ''-'' (lower company_name),
      replace CHR ''&'' ''and'' (replace CHR '' '' [] (lower company_name)),
      acronym company_name]"

text \<open>
  The URLs of the pattern phase in the order the loops form them: for every name, for
  every domain, without and with \<open>www.\<close>.
\<close>

definition pattern_urls :: "string list \<Rightarrow> string list \<Rightarrow> string list" where
  "pattern_urls names domains =
     concat (map (\<lambda>name. concat (map (\<lambda>domain.
       [''https://'' @ name @ ''.'' @ domain, ''https://www.'' @ name @ ''.'' @ domain])
       domains)) names)"

text \<open>\<open>for url in urls: if self.check_url_exists(url): return url\<close>.\<close>

fun probe_first :: "env \<Rightarrow> state \<Rightarrow> string list \<Rightarrow> string option \<times> state" where
  "probe_first w s [] = (None, s)"
| "probe_first w s (url # urls) =
     (case check_url_exists w s url of
        (True, s1) \<Rightarrow> (Some url, s1)
      | (False, s1) \<Rightarrow> probe_first w s1 urls)"

text \<open>
  The pattern phase of the base variant collects the URLs in a set and probes them in
  the set's order; the AI variant probes them in the order of the loops.
\<close>

definition pattern_phase :: "config \<Rightarrow> env \<Rightarrow> state \<Rightarrow> string \<Rightarrow> string option \<times> state" where
  "pattern_phase cfg w s company_name =
     (let variations = set_of (pattern_urls (base_names company_name) (email_domains cfg))
      in probe_first w s (set_iter (set_order w) variations))"

definition pattern_phase_agent :: "config \<Rightarrow> env \<Rightarrow> state \<Rightarrow> string \<Rightarrow> string option \<times> state" where
  "pattern_phase_agent cfg w s company_name =
     probe_first w s (pattern_urls (name_variations company_name) (email_domains cfg))"

text \<open>
  The links of the Google result page, in the base variant's fallback. An IndexError
  of \<open>href.split('url?q=')[1]\<close> would leave the loop for the \<open>except\<close>, after which
  the function returns \<open>None\<close>.
\<close>

fun probe_google_links :: "env \<Rightarrow> state \<Rightarrow> string list \<Rightarrow> string option \<times> state" where
  "probe_google_links w s [] = (None, s)"
| "probe_google_links w s (href # hrefs) =
     (if str_in ''url?q='' href \<and> \<not> any_in [''google.com'', ''webcache''] href then
        (case index (split ''url?q='' href) 1 of
           None \<Rightarrow> (None, s)
         | Some rest \<Rightarrow>
             (let potential_url = first_field ''&'' rest
              in case check_url_exists w s potential_url of
                   (True, s1) \<Rightarrow> (Some potential_url, s1)
                 | (False, s1) \<Rightarrow> probe_google_links w s1 hrefs))
      else probe_google_links w s hrefs)"

definition get_company_domain :: "config \<Rightarrow> env \<Rightarrow> state \<Rightarrow> string \<Rightarrow> string option \<times> state" where
  "get_company_domain cfg w s company_name =
     (case pattern_phase cfg w s company_name of
        (Some url, s1) \<Rightarrow> (Some url, s1)
      | (None, s1) \<Rightarrow>
          (let google_url = ''https://www.google.com/search?q=''
                 @ replace CHR '' '' ''+'' company_name @ ''+official+website''
           in case fetch_page w s1 google_url of
                (None, s2) \<Rightarrow> (None, s2)
              | (Some soup, s2) \<Rightarrow> probe_google_links w s2 (map snd (links soup))))"

text \<open>
  The fallback of the AI variant asks the search API and returns the first result URL
  that contains one of the configured domains, without probing it.
\<close>

definition search_tool :: "env \<Rightarrow> state \<Rightarrow> string \<Rightarrow> search_result list option \<times> state" where
  "search_tool w s query = (search_invoke w (clock s) query, tick s)"

fun first_result_url :: "config \<Rightarrow> search_result list \<Rightarrow> string option" where
  "first_result_url cfg [] = None"
| "first_result_url cfg (result # results) =
     (case result_url result of
        None \<Rightarrow> first_result_url cfg results
      | Some url \<Rightarrow>
          if any_in (email_domains cfg) url then Some url else first_result_url cfg results)"

definition get_company_domain_agent :: "config \<Rightarrow> env \<Rightarrow> state \<Rightarrow> string \<Rightarrow> string option \<times> state" where
  "get_company_domain_agent cfg w s company_name =
     (case pattern_phase_agent cfg w s company_name of
        (Some url, s1) \<Rightarrow> (Some url, s1)
      | (None, s1) \<Rightarrow>
          (case search_tool w s1 (company_name @ '' official website'') of
             (None, s2) \<Rightarrow> (None, s2)
           | (Some results, s2) \<Rightarrow> (first_result_url cfg results, s2)))"

text \<open>A run that resolves one company after the other.\<close>

fun resolve_all :: "config \<Rightarrow> env \<Rightarrow> state \<Rightarrow> string list \<Rightarrow> state" where
  "resolve_all cfg w s [] = s"
| "resolve_all cfg w s (company_name # names) =
     resolve_all cfg w (snd (get_company_domain cfg w s company_name)) names"

fun resolve_all_agent :: "config \<Rightarrow> env \<Rightarrow> state \<Rightarrow> string list \<Rightarrow> state" where
  "resolve_all_agent cfg w s [] = s"
| "resolve_all_agent cfg w s (company_name # names) =
     resolve_all_agent cfg w (snd (get_company_domain_agent cfg w s company_name)) names"

section \<open>The contact-page locator\<close>

definition common_paths :: "string list" where
  "common_paths =
     [''/contact'', ''/contact-us'', ''/contact.html'',
      ''/about/contact'', ''/connect'', ''/get-in-touch'',
      ''/contact-sales'', ''/demo-request'', ''/support'',
      ''/help'', ''/contacto'', ''/about-us'', ''/team'']"

definition common_paths_agent :: "string list" where
  "common_paths_agent = [''/contact'', ''/contact-us'', ''/about/contact'', ''/connect'']"

text \<open>
  \<open>any(keyword in text or keyword in href for keyword in contact_keywords)\<close>, on the
  lowercased text and \<open>href\<close> of a link.
\<close>

definition keyword_link :: "config \<Rightarrow> string \<times> string \<Rightarrow> bool" where
  "keyword_link cfg link =
     (let text = lower (fst link); href = lower (snd link)
      in list_ex (\<lambda>keyword. str_in keyword text \<or> str_in keyword href) (contact_keywords cfg))"

text \<open>
  \<open>if not link.startswith('http'): link = urljoin(base_url, link)\<close>, for every link
  of the deduplicated set.
\<close>

definition absolute_link :: "env \<Rightarrow> string \<Rightarrow> string \<Rightarrow> string" where
  "absolute_link w base_url link =
     (if \<not> startswith link ''http'' then urljoin w base_url link else link)"

definition find_contact_page :: "config \<Rightarrow> env \<Rightarrow> state \<Rightarrow> string \<Rightarrow> string option \<times> state" where
  "find_contact_page cfg w s base_url =
     (case probe_first w s (map (urljoin w base_url) common_paths) of
        (Some contact_url, s1) \<Rightarrow> (Some contact_url, s1)
      | (None, s1) \<Rightarrow>
          (case fetch_page w s1 base_url of
             (None, s2) \<Rightarrow> (None, s2)
           | (Some soup, s2) \<Rightarrow>
               (let possible_links = map snd (filter (keyword_link cfg) (links soup))
                in probe_first w s2
                     (map (absolute_link w base_url)
                        (set_iter (set_order w) (set_of possible_links))))))"

text \<open>
  The AI variant skips links whose lowercased \<open>href\<close> starts with \<open>mailto:\<close>,
  \<open>tel:\<close> or \<open>javascript:\<close>.
\<close>

definition contact_link_agent :: "config \<Rightarrow> string \<times> string \<Rightarrow> bool" where
  "contact_link_agent cfg link =
     (keyword_link cfg link \<and>
      \<not> list_ex (startswith (lower (snd link))) [''mailto:'', ''tel:'', ''javascript:''])"

definition find_contact_page_agent :: "config \<Rightarrow> env \<Rightarrow> state \<Rightarrow> string \<Rightarrow> string option \<times> state" where
  "find_contact_page_agent cfg w s base_url =
     (case probe_first w s (map (urljoin w base_url) common_paths_agent) of
        (Some contact_url, s1) \<Rightarrow> (Some contact_url, s1)
      | (None, s1) \<Rightarrow>
          (case fetch_page w s1 base_url of
             (None, s2) \<Rightarrow> (None, s2)
           | (Some soup, s2) \<Rightarrow>
               (let contact_links = map snd (filter (contact_link_agent cfg) (links soup))
                in probe_first w s2
                     (map (absolute_link w base_url)
                        (set_iter (set_order w) (set_of contact_links))))))"

section \<open>The LinkedIn lookup of the base variant\<close>

definition find_linkedin_profile :: "env \<Rightarrow> state \<Rightarrow> string \<Rightarrow> string option \<times> state" where
  "find_linkedin_profile w s company_name =
     (let google_url = ''https://www.google.com/search?q=''
            @ replace CHR '' '' ''+'' company_name @ ''+LinkedIn''
      in case fetch_page w s google_url of
           (None, s1) \<Rightarrow> (None, s1)
         | (Some soup, s1) \<Rightarrow>
             (case find (\<lambda>href. str_in ''linkedin.com/company/'' href
                                 \<and> \<not> any_in [''/posts'', ''/jobs''] href)
                     (map snd (links soup)) of
                Some href \<Rightarrow> (Some (first_field ''&'' href), s1)
              | None \<Rightarrow>
                  (let google_url = ''https://www.google.com/search?q=site:linkedin.com/company+''
                         @ replace CHR '' '' ''+'' company_name
                   in case fetch_page w s1 google_url of
                        (None, s2) \<Rightarrow> (None, s2)
                      | (Some soup, s2) \<Rightarrow>
                          (case find (str_in ''linkedin.com/company/'') (map snd (links soup)) of
                             Some href \<Rightarrow> (Some (first_field ''&'' href), s2)
                           | None \<Rightarrow> (None, s2)))))"

section \<open>The lead assembler of the base variant\<close>

record lead =
  company :: string
  website :: string
  linkedin :: string
  service_category :: string
  emails :: string
  email_count :: nat
  contact_page :: string
  date_collected :: string
  status :: string

text \<open>Python's truth value of \<open>None\<close> or a string, and \<open>x or ''\<close>.\<close>

definition truthy :: "string option \<Rightarrow> bool" where
  "truthy x = (case x of None \<Rightarrow> False | Some v \<Rightarrow> v \<noteq> [])"

definition or_empty :: "string option \<Rightarrow> string" where
  "or_empty x = (case x of None \<Rightarrow> [] | Some v \<Rightarrow> v)"

text \<open>
  \<open>for source in email_sources: emails = extract(source); if emails:
  all_emails.extend(emails)\<close>. The local names \<open>website\<close>, \<open>linkedin\<close>,
  \<open>contact_page\<close> and \<open>emails\<close> of the source are \<open>site\<close>, \<open>profile\<close>,
  \<open>contact\<close> and \<open>found\<close> here, since the record's fields carry those names.
\<close>

fun extract_sources :: "config \<Rightarrow> env \<Rightarrow> state \<Rightarrow> string list \<Rightarrow> string list \<Rightarrow> string list \<times> state" where
  "extract_sources cfg w s all_emails [] = (all_emails, s)"
| "extract_sources cfg w s all_emails (source # sources) =
     (case extract_emails_from_page cfg w s source of
        (found, s1) \<Rightarrow>
          extract_sources cfg w s1 (if found \<noteq> [] then all_emails @ found else all_emails) sources)"

text \<open>
  The deeper search over \<open>deeper_pages\<close>: it stops after the first page that is found
  and yields an email.
\<close>

definition deeper_pages :: "string list" where
  "deeper_pages = [''/about'', ''/team'', ''/company'', ''/leadership'', ''/people'']"

fun deeper_search :: "config \<Rightarrow> env \<Rightarrow> state \<Rightarrow> string \<Rightarrow> string list \<Rightarrow> string list \<times> state" where
  "deeper_search cfg w s site [] = ([], s)"
| "deeper_search cfg w s site (pg # pages) =
     (let deeper_url = urljoin w site pg
      in case check_url_exists w s deeper_url of
           (False, s1) \<Rightarrow> deeper_search cfg w s1 site pages
         | (True, s1) \<Rightarrow>
             (case extract_emails_from_page cfg w s1 deeper_url of
                (deeper_emails, s2) \<Rightarrow>
                  if deeper_emails \<noteq> [] then (deeper_emails, s2)
                  else deeper_search cfg w s2 site pages))"

definition get_company_info :: "config \<Rightarrow> env \<Rightarrow> state \<Rightarrow> string \<Rightarrow> string \<Rightarrow> lead option \<times> state" where
  "get_company_info cfg w s company_name category =
     (case get_company_domain cfg w s company_name of
        (site, s1) \<Rightarrow>
          if \<not> truthy site then (None, s1)
          else
            (case find_linkedin_profile w s1 company_name of
               (profile, s2) \<Rightarrow>
                 (case find_contact_page cfg w s2 (or_empty site) of
                    (contact, s3) \<Rightarrow>
                      (let email_sources =
                             (if truthy contact \<and> contact \<noteq> site then [or_empty site, or_empty contact]
                              else [or_empty site])
                       in case extract_sources cfg w s3 [] email_sources of
                            (all_emails, s4) \<Rightarrow>
                              (let all_emails = set_iter (set_order w) (set_of all_emails)
                               in case (if all_emails = []
                                        then deeper_search cfg w s4 (or_empty site) deeper_pages
                                        else (all_emails, s4)) of
                                    (all_emails, s5) \<Rightarrow>
                                      (Some \<lparr>
                                         company = company_name,
                                         website = or_empty site,
                                         linkedin = or_empty profile,
                                         service_category = category,
                                         emails = join '', '' all_emails,
                                         email_count = length all_emails,
                                         contact_page = or_empty contact,
                                         date_collected = now w (clock s5),
                                         status = (if all_emails \<noteq> [] then ''Success''
                                                   else ''No emails found'')\<rparr>, s5))))))"

section \<open>The lead assembler of the AI variant\<close>

text \<open>The services, each with its description (the keywords are never read).\<close>

definition SERVICES :: "(string \<times> string) list" where
  "SERVICES =
     [(''Advanced Analytics'',
       ''Uncover actionable insights and track conversions effectively with our advanced analytics solutions. Harness the power of data to optimize your marketing strategies and drive conversions.''),
      (''Account Based Marketing'',
       ''Tailor your marketing efforts precisely to high-value accounts with our strategic account-based marketing approach. Engage your target audience on a personalized level and maximize your ROI.''),
      (''Sales & Marketing Automation'',
       ''Streamline your sales and marketing processes with our automation solutions. From lead nurturing to email campaigns, automate repetitive tasks and focus on building meaningful connections.''),
      (''HubSpot Excellence'',
       ''Unlock the full potential of HubSpot with our expert guidance and support. From implementation to optimization, we ensure you get the most out of HubSpot's powerful features.''),
      (''CRM Migration'',
       ''Seamlessly transition your CRM system with our migration services. Our experienced team ensures a smooth migration process, preserving data integrity and minimizing disruptions.''),
      (''CRM Strategy'',
       ''Develop a comprehensive CRM strategy tailored to your business goals with our expertise. From lead management to customer retention, we help you maximize your CRM investment.'')]"

text \<open>
  \<open>ai_enhance_company_info\<close>: the insight request, with every exception of the
  \<open>try\<close> (the KeyError of an unknown service among them, raised before the request
  is sent) answered by the empty object.
\<close>

definition ai_enhance_company_info ::
    "(string \<times> string) list \<Rightarrow> env \<Rightarrow> state \<Rightarrow> string \<Rightarrow> string \<Rightarrow> llm_answer \<times> state" where
  "ai_enhance_company_info services w s company_name service_name =
     (case map_of services service_name of
        None \<Rightarrow> (LlmObject [], s)
      | Some description \<Rightarrow>
          (case llm_insights w (clock s) company_name service_name of
             LlmRaised \<Rightarrow> (LlmObject [], tick s)
           | insights \<Rightarrow> (insights, tick s)))"

text \<open>
  \<open>search_emails_with_api\<close>: the addresses in the search results' contents,
  lowercased, without the deny-listed ones, cut to the maximum.
\<close>

definition add_content_emails :: "config \<Rightarrow> search_result \<Rightarrow> pyset \<Rightarrow> pyset" where
  "add_content_emails cfg result es =
     (case content_emails result of
        None \<Rightarrow> es
      | Some found_emails \<Rightarrow>
          set_update es
            (map lower
               (filter (\<lambda>e. \<not> any_in (ignore_email_patterns cfg) (lower e)) found_emails)))"

definition search_emails_with_api ::
    "config \<Rightarrow> env \<Rightarrow> state \<Rightarrow> string \<Rightarrow> string option \<Rightarrow> string list \<times> state" where
  "search_emails_with_api cfg w s company_name domain =
     (case (if \<not> truthy domain then get_company_domain_agent cfg w s company_name
            else (domain, s)) of
        (domain, s1) \<Rightarrow>
          if \<not> truthy domain then ([], s1)
          else
            (let query = ''email contacts @'' @ netloc w (or_empty domain)
                   @ '' -@gmail.com -@yahoo.com -@outlook.com''
             in case search_tool w s1 query of
                  (None, s2) \<Rightarrow> ([], s2)
                | (Some results, s2) \<Rightarrow>
                    (take (max_emails_per_company cfg)
                       (set_iter (set_order w) (fold (add_content_emails cfg) results [])), s2)))"

text \<open>
  The record of the AI variant is a dictionary: its own eight entries, then the items
  of the insight object (\<open>**ai_insights\<close>), which replace an entry of the same key.
  The items of an object have distinct keys. A service that is not in \<open>services\<close> is
  a KeyError, and an insight that is not an object is a TypeError of the \<open>**\<close>.
\<close>

datatype py_error = KeyError | TypeError

type_synonym lead_dict = "string \<rightharpoonup> pyval"

definition scrape_contact_page ::
    "config \<Rightarrow> env \<Rightarrow> state \<Rightarrow> string \<Rightarrow> pyset \<Rightarrow> pyset \<times> state" where
  "scrape_contact_page cfg w s site email_set =
     (case find_contact_page_agent cfg w s site of
        (contact, s1) \<Rightarrow>
          if truthy contact then
            (case extract_emails_from_page_agent cfg w s1 (or_empty contact) of
               (scraped_emails, s2) \<Rightarrow> (set_update email_set scraped_emails, s2))
          else (email_set, s1))"

definition lead_entries ::
    "config \<Rightarrow> env \<Rightarrow> state \<Rightarrow> string \<Rightarrow> string \<Rightarrow> string \<Rightarrow> string \<Rightarrow> pyset \<Rightarrow> lead_dict" where
  "lead_entries cfg w s company_name site service_name description email_set =
     [''company'' \<mapsto> PStr company_name,
      ''website'' \<mapsto> PStr site,
      ''service'' \<mapsto> PStr service_name,
      ''service_description'' \<mapsto> PStr description,
      ''emails'' \<mapsto> PStr (join '', ''
          (take (max_emails_per_company cfg) (set_iter (set_order w) email_set))),
      ''email_count'' \<mapsto> PInt (int (length email_set)),
      ''date_collected'' \<mapsto> PStr (now w (clock s)),
      ''status'' \<mapsto> PStr (if email_set \<noteq> [] then ''Success'' else ''Partial'')]"

definition get_company_info_agent ::
    "config \<Rightarrow> (string \<times> string) list \<Rightarrow> env \<Rightarrow> state \<Rightarrow> string \<Rightarrow> string
      \<Rightarrow> (py_error + lead_dict option) \<times> state" where
  "get_company_info_agent cfg services w s company_name service_name =
     (case get_company_domain_agent cfg w s company_name of
        (site, s1) \<Rightarrow>
          if \<not> truthy site then (Inr None, s1)
          else
            (case ai_enhance_company_info services w s1 company_name service_name of
               (ai_insights, s2) \<Rightarrow>
                 (case search_emails_with_api cfg w s2 company_name site of
                    (api_emails, s3) \<Rightarrow>
                      (let email_set = set_update [] api_emails
                       in case (if length email_set < max_emails_per_company cfg
                                then scrape_contact_page cfg w s3 (or_empty site) email_set
                                else (email_set, s3)) of
                            (email_set, s4) \<Rightarrow>
                              (case map_of services service_name of
                                 None \<Rightarrow> (Inl KeyError, s4)
                               | Some description \<Rightarrow>
                                   (case ai_insights of
                                      LlmObject items \<Rightarrow>
                                        (Inr (Some (lead_entries cfg w s4 company_name (or_empty site)
                                                      service_name description email_set
                                                    ++ map_of items)), s4)
                                    | _ \<Rightarrow> (Inl TypeError, s4)))))))"

text \<open>
  The addresses a reader of the table finds in an \<open>emails\<close> cell: the cell split at
  the separator of the join.
\<close>

definition listed_emails :: "string \<Rightarrow> string list" where
  "listed_emails cell = (if cell = [] then [] else split '', '' cell)"

text \<open>Two addresses are the same but for the case of their letters.\<close>

definition same_ignoring_case :: "string \<Rightarrow> string \<Rightarrow> bool" where
  "same_ignoring_case a b = (lower a = lower b)"

text \<open>
  The final email list of a call of the base assembler: the value of \<open>all_emails\<close>
  when \<open>get_company_info\<close> builds the record.
\<close>

definition final_emails :: "config \<Rightarrow> env \<Rightarrow> state \<Rightarrow> string \<Rightarrow> string list" where
  "final_emails cfg w s company_name =
     (case get_company_domain cfg w s company_name of
        (site, s1) \<Rightarrow>
          (case find_linkedin_profile w s1 company_name of
             (profile, s2) \<Rightarrow>
               (case find_contact_page cfg w s2 (or_empty site) of
                  (contact, s3) \<Rightarrow>
                    (let email_sources =
                           (if truthy contact \<and> contact \<noteq> site then [or_empty site, or_empty contact]
                            else [or_empty site])
                     in case extract_sources cfg w s3 [] email_sources of
                          (all_emails, s4) \<Rightarrow>
                            (let all_emails = set_iter (set_order w) (set_of all_emails)
                             in fst (if all_emails = []
                                     then deeper_search cfg w s4 (or_empty site) deeper_pages
                                     else (all_emails, s4)))))))"

text \<open>
  The insight object and the final email set of a call of the AI assembler: the values
  of \<open>ai_insights\<close> and \<open>emails\<close> when \<open>get_company_info\<close> builds the record.
\<close>

definition agent_insights ::
    "config \<Rightarrow> (string \<times> string) list \<Rightarrow> env \<Rightarrow> state \<Rightarrow> string \<Rightarrow> string \<Rightarrow> llm_answer" where
  "agent_insights cfg services w s company_name service_name =
     (case get_company_domain_agent cfg w s company_name of
        (site, s1) \<Rightarrow> fst (ai_enhance_company_info services w s1 company_name service_name))"

definition agent_email_set ::
    "config \<Rightarrow> (string \<times> string) list \<Rightarrow> env \<Rightarrow> state \<Rightarrow> string \<Rightarrow> string \<Rightarrow> pyset" where
  "agent_email_set cfg services w s company_name service_name =
     (case get_company_domain_agent cfg w s company_name of
        (site, s1) \<Rightarrow>
          (case ai_enhance_company_info services w s1 company_name service_name of
             (ai_insights, s2) \<Rightarrow>
               (case search_emails_with_api cfg w s2 company_name site of
                  (api_emails, s3) \<Rightarrow>
                    (let email_set = set_update [] api_emails
                     in fst (if length email_set < max_emails_per_company cfg
                             then scrape_contact_page cfg w s3 (or_empty site) email_set
                             else (email_set, s3))))))"

section \<open>Invariants and concrete worlds\<close>

text \<open>
  The invariant of the ProbeCache: no URL stands twice in the log of HEAD requests, and
  every URL that was requested is in the cache. With calls running at once, the calls
  between their two steps count as requests to come.
\<close>

definition probe_inv :: "state \<Rightarrow> bool" where
  "probe_inv s = (distinct (head_log s) \<and> set (head_log s) \<subseteq> processed_urls s)"

definition conc_inv :: "state \<times> string list \<Rightarrow> bool" where
  "conc_inv c =
     (distinct (head_log (fst c) @ snd c) \<and>
      set (head_log (fst c) @ snd c) \<subseteq> processed_urls (fst c))"

text \<open>
  A world in which no server answers and no collaborator works; sets are iterated in
  insertion order, the regex accepts what contains an \<open>@\<close>, and \<open>urljoin\<close> appends a
  path to a URL that has none.
\<close>

definition silent_env :: env where
  "silent_env = \<lparr>
     head_status = (\<lambda>n url. Raised),
     get_page = (\<lambda>n url. None),
     search_invoke = (\<lambda>n query. None),
     llm_insights = (\<lambda>n company_name service_name. LlmRaised),
     now = (\<lambda>n. ''2025-01-01 09:00''),
     email_regex_match = str_in ''@'',
     urljoin = (\<lambda>base path. base @ path),
     netloc = drop 8,
     set_order = (\<lambda>xs x. 0)\<rparr>"

text \<open>A page whose only content the program reads is the addresses in its text.\<close>

definition text_page :: "string list \<Rightarrow> page" where
  "text_page found =
     \<lparr>text_emails = found, mailto_hrefs = [], form_emails = [], element_emails = [], links = []\<rparr>"

text \<open>
  The site \<open>https://acme.com\<close> with a contact page; each of the two pages shows five
  addresses.
\<close>

definition two_page_env :: env where
  "two_page_env = silent_env\<lparr>
     head_status := (\<lambda>n url.
        if url = ''https://acme.com'' \<or> url = ''https://acme.com/contact'' then Status 200
        else Status 404),
     get_page := (\<lambda>n url.
        if url = ''https://acme.com'' then
          Some (text_page [''ann@acme.com'', ''bob@acme.com'', ''cat@acme.com'',
                           ''dan@acme.com'', ''eve@acme.com''])
        else if url = ''https://acme.com/contact'' then
          Some (text_page [''fay@acme.com'', ''gus@acme.com'', ''hal@acme.com'',
                           ''ian@acme.com'', ''joy@acme.com''])
        else None)\<rparr>"

text \<open>
  A contact page with a \<open>mailto:\<close> link to \<open>sales@acme.com\<close> and the text
  ``Reach us at press@acme.com or noreply@acme.com'', and a world whose pages show no
  address at all.
\<close>

definition mailto_env :: env where
  "mailto_env = silent_env\<lparr>
     get_page := (\<lambda>n url.
        if url = ''https://acme.com/contact'' then
          Some \<lparr>text_emails = [''press@acme.com'', ''noreply@acme.com''],
                mailto_hrefs = [''mailto:sales@acme.com?subject=Hello''],
                form_emails = [], element_emails = [], links = []\<rparr>
        else None)\<rparr>"

definition blank_env :: env where
  "blank_env = silent_env\<lparr>get_page := (\<lambda>n url. Some (text_page []))\<rparr>"

section \<open>Properties the specification names\<close>

text \<open>
  An address contains a deny-listed substring, compared without regard to case.
\<close>

definition deny_listed :: "config \<Rightarrow> string \<Rightarrow> bool" where
  "deny_listed cfg email =
     list_ex (\<lambda>pattern. str_in (lower pattern) (lower email)) (ignore_email_patterns cfg)"

text \<open>
  The deny-list is written in lower case, as it is in both configurations.
\<close>

definition lowercase_patterns :: "config \<Rightarrow> bool" where
  "lowercase_patterns cfg = list_all (\<lambda>pattern. lower pattern = pattern) (ignore_email_patterns cfg)"

text \<open>A page with zero matching markup: no regex match anywhere and no \<open>mailto:\<close> link.\<close>

definition no_markup :: "page \<Rightarrow> bool" where
  "no_markup pg =
     (text_emails pg = [] \<and> mailto_hrefs pg = []
      \<and> list_all (\<lambda>found. found = []) (form_emails pg)
      \<and> list_all (\<lambda>found. found = []) (element_emails pg))"

text \<open>
  The name variants in the specification's words: the lowercase name with its spaces
  removed, the lowercase name with every space replaced by a hyphen, and the acronym
  of the first letters of the words. The AI variant adds a fourth: the first with every
  \<open>&\<close> written \<open>and\<close>. The candidate set is the cross product of the variants,
  the top-level domains and the two prefixes.
\<close>

definition spec_variants :: "string \<Rightarrow> string list" where
  "spec_variants company_name =
     [filter (\<lambda>c. c \<noteq> CHR '' '') (lower company_name),
      map (\<lambda>c. if c = CHR '' '' then CHR ''-'' else c) (lower company_name),
      lower (concat (map (take 1) (split_ws company_name)))]"

definition agent_variants :: "string \<Rightarrow> string list" where
  "agent_variants company_name =
     spec_variants company_name
       @ [replace CHR ''&'' ''and'' (filter (\<lambda>c. c \<noteq> CHR '' '') (lower company_name))]"

definition cross_product :: "string list \<Rightarrow> string list \<Rightarrow> string set" where
  "cross_product names domains =
     (\<Union>name \<in> set names. \<Union>domain \<in> set domains. \<Union>prefix \<in> {[], ''www.''}.
        {''https://'' @ prefix @ name @ ''.'' @ domain})"

text \<open>A world in which only \<open>https://aandb.com\<close> exists.\<close>

definition aandb_env :: env where
  "aandb_env = silent_env\<lparr>
     head_status := (\<lambda>n url. if url = ''https://aandb.com'' then Status 200 else Status 404)\<rparr>"

text \<open>
  The site \<open>https://acme.com\<close> alone, with no page that can be fetched; the same site
  with a home page that shows one address in two spellings; and a world for the AI
  variant in which the search API finds four addresses and the contact page shows five
  more.
\<close>

definition acme_env :: env where
  "acme_env = silent_env\<lparr>
     head_status := (\<lambda>n url. if url = ''https://acme.com'' then Status 200 else Status 404)\<rparr>"

definition mixed_case_env :: env where
  "mixed_case_env = acme_env\<lparr>
     get_page := (\<lambda>n url.
        if url = ''https://acme.com'' then Some (text_page [''Sales@acme.com'', ''sales@acme.com''])
        else None)\<rparr>"

definition nine_emails_env :: env where
  "nine_emails_env = silent_env\<lparr>
     head_status := (\<lambda>n url.
        if url = ''https://acme.com'' \<or> url = ''https://acme.com/contact'' then Status 200
        else Status 404),
     search_invoke := (\<lambda>n query.
        if query = ''email contacts @acme.com -@gmail.com -@yahoo.com -@outlook.com'' then
          Some [\<lparr>result_url = Some ''https://acme.com/team'',
                 content_emails = Some [''ann@acme.com'', ''bob@acme.com'', ''cat@acme.com'',
                                        ''dan@acme.com'']\<rparr>]
        else None),
     get_page := (\<lambda>n url.
        if url = ''https://acme.com/contact'' then
          Some (text_page [''fay@acme.com'', ''gus@acme.com'', ''hal@acme.com'',
                           ''ian@acme.com'', ''joy@acme.com''])
        else None)\<rparr>"

text \<open>
  A world for the AI variant in which the search API finds one address and the insight
  object has an entry named \<open>status\<close>.
\<close>

definition hot_lead_env :: env where
  "hot_lead_env = acme_env\<lparr>
     llm_insights := (\<lambda>n company_name service_name. LlmObject [(''status'', PStr ''Hot lead'')]),
     search_invoke := (\<lambda>n query.
        Some [\<lparr>result_url = None, content_emails = Some [''ann@acme.com'']\<rparr>])\<rparr>"

text \<open>
  Two worlds for the AI variant in which the insight request succeeds. In the first the
  insight for \<open>Acme\<close> has no entry named \<open>status\<close>, the insight for every other
  company has one, and the search API finds one address. In the second the insight is
  the only thing found.
\<close>

definition mixed_llm_env :: env where
  "mixed_llm_env = acme_env\<lparr>
     llm_insights := (\<lambda>n company_name service_name.
        if company_name = ''Acme'' then LlmObject [(''potential_value'', PStr ''high'')]
        else LlmObject [(''status'', PStr ''Hot lead'')]),
     search_invoke := (\<lambda>n query.
        Some [\<lparr>result_url = None, content_emails = Some [''ann@acme.com'']\<rparr>])\<rparr>"

definition insight_only_env :: env where
  "insight_only_env = acme_env\<lparr>
     llm_insights := (\<lambda>n company_name service_name.
        LlmObject [(''potential_value'', PStr ''high'')])\<rparr>"

text \<open>An entry of the record that the AI variant returns, if it returns one.\<close>

definition record_field :: "py_error + lead_dict option \<Rightarrow> string \<Rightarrow> pyval option" where
  "record_field result key = (case result of Inr (Some r) \<Rightarrow> r key | _ \<Rightarrow> None)"

section \<open>The prober: results, cache and log\<close>

lemma check_url_exists_state:
  "snd (check_url_exists w s url) =
     (if url \<in> processed_urls s then s
      else \<lparr>processed_urls = insert url (processed_urls s), clock = Suc (clock s),
             head_log = head_log s @ [url]\<rparr>)"
  by (auto simp: check_url_exists_def check_url_exists_try_def lock_section_def
      head_request_def tick_def split: response.splits)

lemma check_url_exists_result:
  "fst (check_url_exists w s url) =
     (url \<notin> processed_urls s \<and> head_status w (clock s) url = Status 200)"
  by (auto simp: check_url_exists_def check_url_exists_try_def lock_section_def
      head_request_def split: response.splits)

lemma check_url_exists_inv: "probe_inv s \<Longrightarrow> probe_inv (snd (check_url_exists w s url))"
  by (auto simp: probe_inv_def check_url_exists_state)

lemma probe_all_inv: "probe_inv s \<Longrightarrow> probe_inv (snd (probe_all w s urls))"
proof (induction urls arbitrary: s)
  case Nil
  then show ?case by simp
next
  case (Cons u us)
  obtain b s1 where c: "check_url_exists w s u = (b, s1)"
    by (cases "check_url_exists w s u")
  with check_url_exists_inv[OF Cons.prems, of w u] have "probe_inv s1" by simp
  from Cons.IH[OF this] c show ?case by (auto split: prod.splits)
qed

lemma probe_inv_init: "probe_inv init_state"
  by (simp add: probe_inv_def init_state_def)

lemma distinct_count_le: "distinct xs \<Longrightarrow> count_list xs x \<le> 1"
  by (induction xs) auto

lemma probe_first_inv: "probe_inv s \<Longrightarrow> probe_inv (snd (probe_first w s urls))"
proof (induction urls arbitrary: s)
  case Nil
  then show ?case by simp
next
  case (Cons u us)
  obtain b s1 where c: "check_url_exists w s u = (b, s1)"
    by (cases "check_url_exists w s u")
  with check_url_exists_inv[OF Cons.prems, of w u] have i: "probe_inv s1" by simp
  show ?case
  proof (cases b)
    case True
    with c i show ?thesis by simp
  next
    case False
    with c Cons.IH[OF i] show ?thesis by simp
  qed
qed

lemma fetch_page_inv: "probe_inv (snd (fetch_page w s url)) = probe_inv s"
  by (simp add: fetch_page_def tick_def probe_inv_def)

lemma search_tool_inv: "probe_inv (snd (search_tool w s query)) = probe_inv s"
  by (simp add: search_tool_def tick_def probe_inv_def)

lemma probe_google_links_inv:
  "probe_inv s \<Longrightarrow> probe_inv (snd (probe_google_links w s hrefs))"
proof (induction hrefs arbitrary: s)
  case Nil
  then show ?case by simp
next
  case (Cons href hrefs)
  show ?case
  proof (cases "str_in ''url?q='' href \<and> \<not> any_in [''google.com'', ''webcache''] href")
    case False
    with Cons show ?thesis by auto
  next
    case True
    show ?thesis
    proof (cases "index (split ''url?q='' href) 1")
      case None
      with True Cons.prems show ?thesis by simp
    next
      case (Some rest)
      let ?u = "first_field ''&'' rest"
      obtain b s1 where c: "check_url_exists w s ?u = (b, s1)"
        by (cases "check_url_exists w s ?u")
      with check_url_exists_inv[OF Cons.prems, of w ?u] have i: "probe_inv s1" by simp
      show ?thesis
      proof (cases b)
        case True
        with \<open>str_in ''url?q='' href \<and> \<not> any_in [''google.com'', ''webcache''] href\<close> Some c i
        show ?thesis by (simp add: Let_def)
      next
        case False
        with \<open>str_in ''url?q='' href \<and> \<not> any_in [''google.com'', ''webcache''] href\<close> Some c
          Cons.IH[OF i]
        show ?thesis by (simp add: Let_def)
      qed
    qed
  qed
qed

lemma get_company_domain_inv:
  assumes "probe_inv s"
  shows "probe_inv (snd (get_company_domain cfg w s n))"
proof -
  obtain r s1 where p: "pattern_phase cfg w s n = (r, s1)"
    by (cases "pattern_phase cfg w s n")
  have "probe_inv (snd (pattern_phase cfg w s n))"
    unfolding pattern_phase_def Let_def by (rule probe_first_inv[OF assms])
  with p have i: "probe_inv s1" by simp
  show ?thesis
  proof (cases r)
    case (Some url)
    with p i show ?thesis by (simp add: get_company_domain_def)
  next
    case None
    let ?g = "''https://www.google.com/search?q='' @ replace CHR '' '' ''+'' n @ ''+official+website''"
    obtain pg s2 where f: "fetch_page w s1 ?g = (pg, s2)"
      by (cases "fetch_page w s1 ?g")
    with fetch_page_inv[of w s1 ?g] i have i2: "probe_inv s2" by simp
    from None p f i2 probe_google_links_inv[OF i2] show ?thesis
      by (simp add: get_company_domain_def Let_def split: option.splits)
  qed
qed

lemma get_company_domain_agent_inv:
  assumes "probe_inv s"
  shows "probe_inv (snd (get_company_domain_agent cfg w s n))"
proof -
  obtain r s1 where p: "pattern_phase_agent cfg w s n = (r, s1)"
    by (cases "pattern_phase_agent cfg w s n")
  have "probe_inv (snd (pattern_phase_agent cfg w s n))"
    unfolding pattern_phase_agent_def by (rule probe_first_inv[OF assms])
  with p have i: "probe_inv s1" by simp
  show ?thesis
  proof (cases r)
    case (Some url)
    with p i show ?thesis by (simp add: get_company_domain_agent_def)
  next
    case None
    obtain res s2 where f: "search_tool w s1 (n @ '' official website'') = (res, s2)"
      by (cases "search_tool w s1 (n @ '' official website'')")
    with search_tool_inv[of w s1 "n @ '' official website''"] i have i2: "probe_inv s2" by simp
    from None p f i2 show ?thesis
      by (simp add: get_company_domain_agent_def split: option.splits)
  qed
qed

lemma resolve_all_inv: "probe_inv s \<Longrightarrow> probe_inv (resolve_all cfg w s names)"
  by (induction names arbitrary: s) (auto simp: get_company_domain_inv)

lemma resolve_all_agent_inv: "probe_inv s \<Longrightarrow> probe_inv (resolve_all_agent cfg w s names)"
  by (induction names arbitrary: s) (auto simp: get_company_domain_agent_inv)

lemma probe_inv_count: "probe_inv s \<Longrightarrow> count_list (head_log s) url \<le> 1"
  unfolding probe_inv_def by (blast intro: distinct_count_le)

text \<open>
  Claim C1. In a run that starts with a new generator, whatever the sequence of probe
  calls, every URL stands at most once in the log of the HEAD requests; a call for a
  URL that is already in the ProbeCache sends no request; and the same bound holds when
  the run resolves any list of company names, in the base variant and in the AI variant.
\<close>

theorem probe_never_repeats:
  "count_list (head_log (snd (probe_all w init_state urls))) url \<le> 1
   \<and> (url \<in> processed_urls s \<longrightarrow> head_log (snd (check_url_exists w s url)) = head_log s)
   \<and> count_list (head_log (resolve_all cfg w init_state names)) url \<le> 1
   \<and> count_list (head_log (resolve_all_agent cfg w init_state names)) url \<le> 1"
proof (intro conjI)
  show "count_list (head_log (snd (probe_all w init_state urls))) url \<le> 1"
    by (rule probe_inv_count[OF probe_all_inv[OF probe_inv_init]])
  show "url \<in> processed_urls s \<longrightarrow> head_log (snd (check_url_exists w s url)) = head_log s"
    by (simp add: check_url_exists_state)
  show "count_list (head_log (resolve_all cfg w init_state names)) url \<le> 1"
    by (rule probe_inv_count[OF resolve_all_inv[OF probe_inv_init]])
  show "count_list (head_log (resolve_all_agent cfg w init_state names)) url \<le> 1"
    by (rule probe_inv_count[OF resolve_all_agent_inv[OF probe_inv_init]])
qed

theorem probe_never_repeats_witness:
  "count_list (head_log (snd (probe_all two_page_env init_state
       [''https://acme.com'', ''https://acme.io'', ''https://acme.com'']))) ''https://acme.com'' \<le> 1
   \<and> ''https://acme.com'' \<in> processed_urls (snd (check_url_exists two_page_env init_state ''https://acme.com''))
   \<and> head_log (snd (check_url_exists two_page_env
         (snd (check_url_exists two_page_env init_state ''https://acme.com'')) ''https://acme.com''))
       = [''https://acme.com'']
   \<and> count_list (head_log (resolve_all CONFIG two_page_env init_state [''Acme'', ''Acme'']))
         ''https://acme.com'' \<le> 1"
proof -
  let ?u = "''https://acme.com''"
  let ?s = "snd (check_url_exists two_page_env init_state ?u)"
  note inst = probe_never_repeats[where w = two_page_env and url = ?u and s = ?s
      and urls = "[?u, ''https://acme.io'', ?u]" and cfg = CONFIG and names = "[''Acme'', ''Acme'']"]
  have mem: "?u \<in> processed_urls ?s"
    by (simp add: check_url_exists_state init_state_def)
  have log: "head_log ?s = [?u]"
    by (simp add: check_url_exists_state init_state_def)
  from inst mem log show ?thesis by simp
qed

text \<open>The same with calls running at once, in any interleaving of their steps.\<close>

lemma event_step_inv: "conc_inv c \<Longrightarrow> conc_inv (event_step w c ev)"
proof (cases c)
  case (Pair s pending)
  assume inv: "conc_inv c"
  show ?thesis
  proof (cases ev)
    case (Enter url)
    with Pair inv show ?thesis
      by (auto simp: conc_inv_def lock_section_def)
  next
    case (Request url)
    from Pair inv have d: "distinct pending" by (simp add: conc_inv_def)
    with Pair inv Request show ?thesis
      by (auto simp: conc_inv_def head_request_def tick_def set_remove1_eq)
  qed
qed

lemma foldl_event_inv: "conc_inv c \<Longrightarrow> conc_inv (foldl (event_step w) c evs)"
  by (induction evs arbitrary: c) (auto simp: event_step_inv)

lemma run_events_never_repeats:
  "count_list (head_log (fst (run_events w init_state evs))) url \<le> 1"
proof -
  have "conc_inv (init_state, [])"
    by (simp add: conc_inv_def init_state_def)
  then have "conc_inv (run_events w init_state evs)"
    unfolding run_events_def by (rule foldl_event_inv)
  then have "distinct (head_log (fst (run_events w init_state evs)))"
    by (simp add: conc_inv_def)
  then show ?thesis by (rule distinct_count_le)
qed

text \<open>
  Claim C5. The prober answers \<open>True\<close> exactly when the URL was not in the ProbeCache
  and the request came back with status 200: a cache hit, an exception and every other
  status give \<open>False\<close>, and no exception leaves the function.
\<close>

theorem check_url_exists_true_iff_200:
  "fst (check_url_exists w s url) =
     (url \<notin> processed_urls s \<and> head_status w (clock s) url = Status 200)
   \<and> (fst (check_url_exists_try w s url) = Inl () \<longrightarrow> fst (check_url_exists w s url) = False)"
  by (auto simp: check_url_exists_def check_url_exists_try_def lock_section_def
      head_request_def split: response.splits)

theorem check_url_exists_true_iff_200_witness:
  "fst (check_url_exists_try silent_env init_state ''https://acme.com'') = Inl ()
   \<and> fst (check_url_exists silent_env init_state ''https://acme.com'') = False
   \<and> fst (check_url_exists two_page_env init_state ''https://acme.com'') = True
   \<and> fst (check_url_exists two_page_env init_state ''https://acme.io'') = False"
proof -
  have raised: "fst (check_url_exists_try silent_env init_state ''https://acme.com'') = Inl ()"
    by (simp add: check_url_exists_try_def lock_section_def head_request_def silent_env_def
        init_state_def)
  from check_url_exists_true_iff_200[of silent_env init_state "''https://acme.com''"] raised
  have "fst (check_url_exists silent_env init_state ''https://acme.com'') = False"
    by blast
  moreover have "fst (check_url_exists two_page_env init_state ''https://acme.com'') = True"
    by (simp add: check_url_exists_result two_page_env_def silent_env_def init_state_def)
  moreover have "fst (check_url_exists two_page_env init_state ''https://acme.io'') = False"
    by (simp add: check_url_exists_result two_page_env_def silent_env_def init_state_def)
  ultimately show ?thesis using raised by simp
qed

text \<open>
  Claim C9. When the server answers a URL the same way at every moment, two probes of
  that URL, each starting from an empty ProbeCache, give the same boolean, whatever
  else has happened in between.
\<close>

theorem probe_idempotent_fresh_cache:
  "(\<forall>n m. head_status w n url = head_status w m url) \<Longrightarrow>
   fst (check_url_exists w (s1\<lparr>processed_urls := {}\<rparr>) url)
     = fst (check_url_exists w (s2\<lparr>processed_urls := {}\<rparr>) url)"
  by (simp add: check_url_exists_result) metis

theorem probe_idempotent_fresh_cache_witness:
  "(\<forall>n m. head_status two_page_env n ''https://acme.com''
            = head_status two_page_env m ''https://acme.com'')
   \<and> fst (check_url_exists two_page_env (init_state\<lparr>processed_urls := {}\<rparr>) ''https://acme.com'')
     = fst (check_url_exists two_page_env
         ((snd (check_url_exists two_page_env init_state ''https://acme.com''))\<lparr>processed_urls := {}\<rparr>)
         ''https://acme.com'')"
proof -
  have det: "\<forall>n m. head_status two_page_env n ''https://acme.com''
                   = head_status two_page_env m ''https://acme.com''"
    by (simp add: two_page_env_def silent_env_def)
  from probe_idempotent_fresh_cache[OF det] det show ?thesis by blast
qed

section \<open>The email extractor: filter, bound and failure\<close>

lemma lower_char_idem: "lower_char (lower_char c) = lower_char c"
  by (simp add: lower_char_def)

lemma lower_idem: "lower (lower s) = lower s"
  by (simp add: lower_def lower_char_idem)

lemma deny_listed_iff:
  "lowercase_patterns cfg \<Longrightarrow>
   deny_listed cfg email = any_in (ignore_email_patterns cfg) (lower email)"
  by (auto simp: lowercase_patterns_def deny_listed_def any_in_def list_ex_iff list_all_iff)

lemma extract_emails_filtered:
  "e \<in> set (fst (extract_emails_from_page cfg w s url)) \<Longrightarrow>
   \<not> any_in (ignore_email_patterns cfg) (lower e)"
  by (auto simp: extract_emails_from_page_def extract_emails_try_def fetch_page_def Let_def
      split: option.splits dest: in_set_takeD)

lemma extract_emails_agent_filtered:
  "e \<in> set (fst (extract_emails_from_page_agent cfg w s url)) \<Longrightarrow>
   \<not> any_in (ignore_email_patterns cfg) (lower e)"
  by (auto simp: extract_emails_from_page_agent_def extract_emails_try_agent_def fetch_page_def
      Let_def lower_idem split: option.splits dest!: in_set_takeD)

lemma extract_emails_length:
  "length (fst (extract_emails_from_page cfg w s url)) \<le> max_emails_per_company cfg"
  by (simp add: extract_emails_from_page_def extract_emails_try_def fetch_page_def Let_def
      split: option.splits)

lemma extract_emails_agent_length:
  "length (fst (extract_emails_from_page_agent cfg w s url)) \<le> max_emails_per_company cfg"
  by (simp add: extract_emails_from_page_agent_def extract_emails_try_agent_def fetch_page_def
      Let_def split: option.splits)

lemma CONFIG_lowercase: "lowercase_patterns CONFIG"
  by code_simp

lemma CONFIG_agent_lowercase: "lowercase_patterns CONFIG_agent"
  by code_simp

text \<open>
  Claim C3. With the deny-list in lower case, as configured, the list the extractor
  returns for a page holds no address that contains a deny-listed substring, whatever
  the case of the address, and it is no longer than the configured maximum; in the base
  variant and in the AI variant.
\<close>

theorem extracted_emails_filtered_and_bounded:
  assumes low: "lowercase_patterns cfg"
  shows "(\<forall>e \<in> set (fst (extract_emails_from_page cfg w s url)). \<not> deny_listed cfg e)
       \<and> length (fst (extract_emails_from_page cfg w s url)) \<le> max_emails_per_company cfg
       \<and> (\<forall>e \<in> set (fst (extract_emails_from_page_agent cfg w s url)). \<not> deny_listed cfg e)
       \<and> length (fst (extract_emails_from_page_agent cfg w s url)) \<le> max_emails_per_company cfg"
  using extract_emails_filtered[of _ cfg w s url] extract_emails_agent_filtered[of _ cfg w s url]
  by (simp add: deny_listed_iff[OF low] extract_emails_length extract_emails_agent_length)

lemma mailto_page_emails:
  "fst (extract_emails_from_page CONFIG mailto_env init_state ''https://acme.com/contact'')
     = [''press@acme.com'', ''sales@acme.com'']"
  by code_simp

theorem extracted_emails_filtered_and_bounded_witness:
  "lowercase_patterns CONFIG
   \<and> fst (extract_emails_from_page CONFIG mailto_env init_state ''https://acme.com/contact'')
       = [''press@acme.com'', ''sales@acme.com'']
   \<and> \<not> deny_listed CONFIG ''press@acme.com''
   \<and> \<not> deny_listed CONFIG ''sales@acme.com''
   \<and> length (fst (extract_emails_from_page CONFIG mailto_env init_state ''https://acme.com/contact''))
       \<le> max_emails_per_company CONFIG"
  using extracted_emails_filtered_and_bounded[OF CONFIG_lowercase, of mailto_env init_state
      "''https://acme.com/contact''"]
  by (simp add: mailto_page_emails CONFIG_lowercase)

lemma set_update_Nil: "set_update es [] = es"
  by (simp add: set_update_def)

lemma fold_update_empty:
  "list_all (\<lambda>found. found = []) fs \<Longrightarrow> fold (\<lambda>found es. set_update es found) fs es = es"
  by (induction fs arbitrary: es) (auto simp: set_update_Nil)

lemma candidate_emails_no_markup: "no_markup pg \<Longrightarrow> candidate_emails w pg = []"
  by (simp add: no_markup_def candidate_emails_def set_of_def set_update_Nil fold_update_empty)

lemma candidate_emails_agent_no_markup: "no_markup pg \<Longrightarrow> candidate_emails_agent w pg = []"
  by (simp add: no_markup_def candidate_emails_agent_def set_of_def set_update_Nil
      fold_update_empty)

text \<open>
  Claim C8. The extractor returns a list for every URL: when the fetch or the parse
  raises, the exception stops in the function and the list is empty; and a page with zero
  matching markup gives the empty list. In the base variant and in the AI variant.
\<close>

theorem extract_emails_empty_on_failure:
  "(fst (extract_emails_try cfg w s url) = Inl () \<longrightarrow>
      fst (extract_emails_from_page cfg w s url) = [])
   \<and> (get_page w (clock s) url = None \<longrightarrow> fst (extract_emails_from_page cfg w s url) = [])
   \<and> (get_page w (clock s) url = Some pg \<and> no_markup pg \<longrightarrow>
      fst (extract_emails_from_page cfg w s url) = [])
   \<and> (fst (extract_emails_try_agent cfg w s url) = Inl () \<longrightarrow>
      fst (extract_emails_from_page_agent cfg w s url) = [])
   \<and> (get_page w (clock s) url = None \<longrightarrow>
      fst (extract_emails_from_page_agent cfg w s url) = [])
   \<and> (get_page w (clock s) url = Some pg \<and> no_markup pg \<longrightarrow>
      fst (extract_emails_from_page_agent cfg w s url) = [])"
  by (auto simp: extract_emails_from_page_def extract_emails_try_def
      extract_emails_from_page_agent_def extract_emails_try_agent_def fetch_page_def Let_def
      candidate_emails_no_markup candidate_emails_agent_no_markup set_iter_def
      split: option.splits prod.splits sum.splits)

theorem extract_emails_empty_on_failure_witness:
  "get_page silent_env (clock init_state) ''https://acme.com'' = None
   \<and> fst (extract_emails_try CONFIG silent_env init_state ''https://acme.com'') = Inl ()
   \<and> fst (extract_emails_from_page CONFIG silent_env init_state ''https://acme.com'') = []
   \<and> fst (extract_emails_from_page_agent CONFIG_agent silent_env init_state ''https://acme.com'') = []
   \<and> get_page blank_env (clock init_state) ''https://acme.com'' = Some (text_page [])
   \<and> no_markup (text_page [])
   \<and> fst (extract_emails_from_page CONFIG blank_env init_state ''https://acme.com'') = []
   \<and> fst (extract_emails_from_page_agent CONFIG_agent blank_env init_state ''https://acme.com'') = []"
proof -
  let ?u = "''https://acme.com''"
  have none: "get_page silent_env (clock init_state) ?u = None"
    by (simp add: silent_env_def)
  have raised: "fst (extract_emails_try CONFIG silent_env init_state ?u) = Inl ()"
    by (simp add: extract_emails_try_def fetch_page_def silent_env_def)
  have blank: "get_page blank_env (clock init_state) ?u = Some (text_page [])"
    by (simp add: blank_env_def silent_env_def)
  have nomark: "no_markup (text_page [])"
    by (simp add: no_markup_def text_page_def)
  note silent = extract_emails_empty_on_failure[of _ silent_env init_state ?u "text_page []"]
  note blanks = extract_emails_empty_on_failure[of _ blank_env init_state ?u "text_page []"]
  have a: "fst (extract_emails_from_page CONFIG silent_env init_state ?u) = []"
    using silent[of CONFIG] none by simp
  have b: "fst (extract_emails_from_page_agent CONFIG_agent silent_env init_state ?u) = []"
    using silent[of CONFIG_agent] none by simp
  have c: "fst (extract_emails_from_page CONFIG blank_env init_state ?u) = []"
    using blanks[of CONFIG] blank nomark by simp
  have d: "fst (extract_emails_from_page_agent CONFIG_agent blank_env init_state ?u) = []"
    using blanks[of CONFIG_agent] blank nomark by simp
  from none raised a b blank nomark c d show ?thesis by (intro conjI)
qed

section \<open>The domain resolver: the candidates of the pattern phase\<close>

lemma replace_empty: "replace c [] s = filter (\<lambda>x. x \<noteq> c) s"
  by (induction s) (auto simp: replace_def)

lemma replace_single: "replace c [d] s = map (\<lambda>x. if x = c then d else x) s"
  by (induction s) (auto simp: replace_def)

lemma base_names_spec: "base_names n = spec_variants n"
  by (simp add: base_names_def spec_variants_def replace_empty replace_single acronym_def)

lemma name_variations_spec: "set (name_variations n) = set (agent_variants n)"
  by (auto simp: name_variations_def agent_variants_def spec_variants_def replace_empty
      replace_single acronym_def)

lemma set_pattern_urls: "set (pattern_urls names domains) = cross_product names domains"
  by (auto simp: pattern_urls_def cross_product_def)

lemma cross_product_cong: "set ns = set ms \<Longrightarrow> cross_product ns ds = cross_product ms ds"
  by (simp add: cross_product_def)

lemma set_set_add: "set (set_add x xs) = insert x (set xs)"
  by (auto simp: set_add_def)

lemma set_set_update: "set (set_update xs ys) = set xs \<union> set ys"
  unfolding set_update_def by (induction ys arbitrary: xs) (auto simp: set_set_add)

lemma set_set_of: "set (set_of ys) = set ys"
  by (simp add: set_of_def set_set_update)

lemma set_set_iter: "set (set_iter ord xs) = set xs"
  by (simp add: set_iter_def)

lemma probe_first_log:
  "set (head_log (snd (probe_first w s urls))) \<subseteq> set (head_log s) \<union> set urls"
proof (induction urls arbitrary: s)
  case Nil
  then show ?case by simp
next
  case (Cons u us)
  obtain b s1 where c: "check_url_exists w s u = (b, s1)"
    by (cases "check_url_exists w s u")
  have "s1 = snd (check_url_exists w s u)" using c by simp
  then have l: "set (head_log s1) \<subseteq> set (head_log s) \<union> {u}"
    by (auto simp: check_url_exists_state split: if_splits)
  show ?case
  proof (cases b)
    case True
    with c l show ?thesis by auto
  next
    case False
    with c l Cons.IH[of s1] show ?thesis by auto
  qed
qed

lemma pattern_phase_log:
  "set (head_log (snd (pattern_phase cfg w s n)))
     \<subseteq> set (head_log s) \<union> cross_product (spec_variants n) (email_domains cfg)"
  using probe_first_log[of w s "set_iter (set_order w)
      (set_of (pattern_urls (base_names n) (email_domains cfg)))"]
  by (simp add: pattern_phase_def set_set_iter set_set_of set_pattern_urls base_names_spec)

lemma pattern_phase_agent_log:
  "set (head_log (snd (pattern_phase_agent cfg w s n)))
     \<subseteq> set (head_log s) \<union> cross_product (agent_variants n) (email_domains cfg)"
  using probe_first_log[of w s "pattern_urls (name_variations n) (email_domains cfg)"]
  by (simp add: pattern_phase_agent_def set_pattern_urls
      cross_product_cong[OF name_variations_spec])

text \<open>
  Claim C6, as the code has it. In the base variant the set of candidate URLs is the
  cross product of the three name variants, the configured domains and the two
  prefixes, and the pattern phase sends requests to URLs of that set only. In the AI
  variant the same holds with four name variants: the three, and the lowercase name
  without spaces with every \<open>&\<close> written \<open>and\<close>.
\<close>

theorem pattern_candidates_cross_product:
  "set (set_iter (set_order w) (set_of (pattern_urls (base_names n) (email_domains cfg))))
     = cross_product (spec_variants n) (email_domains cfg)
   \<and> set (head_log (snd (pattern_phase cfg w s n)))
       \<subseteq> set (head_log s) \<union> cross_product (spec_variants n) (email_domains cfg)
   \<and> set (pattern_urls (name_variations n) (email_domains cfg))
     = cross_product (agent_variants n) (email_domains cfg)
   \<and> set (head_log (snd (pattern_phase_agent cfg w s n)))
       \<subseteq> set (head_log s) \<union> cross_product (agent_variants n) (email_domains cfg)"
  by (simp add: set_set_iter set_set_of set_pattern_urls base_names_spec pattern_phase_log
      pattern_phase_agent_log cross_product_cong[OF name_variations_spec])

text \<open>
  The claim as it is written fails in the AI variant: for the company \<open>A&B\<close> the
  pattern phase probes and returns \<open>https://aandb.com\<close>, which no combination of the
  three variants gives.
\<close>

theorem pattern_candidates_counterexample:
  "fst (pattern_phase_agent CONFIG_agent aandb_env init_state ''A&B'') = Some ''https://aandb.com''
   \<and> ''https://aandb.com'' \<notin> cross_product (spec_variants ''A&B'') (email_domains CONFIG_agent)"
proof
  show "fst (pattern_phase_agent CONFIG_agent aandb_env init_state ''A&B'')
          = Some ''https://aandb.com''"
    by code_simp
  show "''https://aandb.com'' \<notin> cross_product (spec_variants ''A&B'') (email_domains CONFIG_agent)"
    unfolding set_pattern_urls[symmetric] by code_simp
qed

section \<open>The lead record: status\<close>

lemma lead_entries_status:
  "lead_entries cfg w s n site sv d es ''status''
     = Some (PStr (if es \<noteq> [] then ''Success'' else ''Partial''))"
  by (simp add: lead_entries_def)

lemma lead_entries_count:
  "lead_entries cfg w s n site sv d es ''email_count'' = Some (PInt (int (length es)))"
  by (simp add: lead_entries_def)

lemma lead_entries_emails:
  "lead_entries cfg w s n site sv d es ''emails''
     = Some (PStr (join '', '' (take (max_emails_per_company cfg) (set_iter (set_order w) es))))"
  by (simp add: lead_entries_def)

lemma map_add_miss:
  assumes "k \<notin> fst ` set items"
  shows "(m ++ map_of items) k = m k"
proof -
  from assms have "map_of items k = None"
    by (simp add: map_of_eq_None_iff)
  then show ?thesis by (simp add: map_add_def)
qed

lemma get_company_info_record:
  assumes res: "get_company_info cfg w s n cat = (Some r, s')"
  shows "emails r = join '', '' (final_emails cfg w s n)
   \<and> email_count r = length (final_emails cfg w s n)
   \<and> status r = (if final_emails cfg w s n \<noteq> [] then ''Success'' else ''No emails found'')"
proof -
  obtain site s1 where a: "get_company_domain cfg w s n = (site, s1)"
    by (cases "get_company_domain cfg w s n")
  obtain profile s2 where b: "find_linkedin_profile w s1 n = (profile, s2)"
    by (cases "find_linkedin_profile w s1 n")
  obtain contact s3 where c: "find_contact_page cfg w s2 (or_empty site) = (contact, s3)"
    by (cases "find_contact_page cfg w s2 (or_empty site)")
  obtain found s4 where d: "extract_sources cfg w s3 []
      (if truthy contact \<and> contact \<noteq> site then [or_empty site, or_empty contact]
       else [or_empty site]) = (found, s4)"
    by (cases "extract_sources cfg w s3 []
      (if truthy contact \<and> contact \<noteq> site then [or_empty site, or_empty contact]
       else [or_empty site])")
  obtain final s5 where e: "(if set_iter (set_order w) (set_of found) = []
      then deeper_search cfg w s4 (or_empty site) deeper_pages
      else (set_iter (set_order w) (set_of found), s4)) = (final, s5)"
    by (cases "(if set_iter (set_order w) (set_of found) = []
      then deeper_search cfg w s4 (or_empty site) deeper_pages
      else (set_iter (set_order w) (set_of found), s4))")
  have fin: "final_emails cfg w s n = final"
    unfolding final_emails_def Let_def a prod.case b c d e fst_conv by (rule refl)
  have info: "get_company_info cfg w s n cat =
    (if \<not> truthy site then (None, s1)
     else (Some \<lparr>company = n, website = or_empty site, linkedin = or_empty profile,
             service_category = cat, emails = join '', '' final,
             email_count = length final, contact_page = or_empty contact,
             date_collected = now w (clock s5),
             status = (if final \<noteq> [] then ''Success'' else ''No emails found'')\<rparr>, s5))"
    unfolding get_company_info_def Let_def a prod.case b c d e by (rule refl)
  from res info have "r = \<lparr>company = n, website = or_empty site, linkedin = or_empty profile,
             service_category = cat, emails = join '', '' final,
             email_count = length final, contact_page = or_empty contact,
             date_collected = now w (clock s5),
             status = (if final \<noteq> [] then ''Success'' else ''No emails found'')\<rparr>"
    by (auto split: if_splits)
  then show ?thesis by (simp add: fin)
qed

lemma get_company_info_agent_record:
  assumes res: "get_company_info_agent cfg services w s n sv = (Inr (Some d), s')"
  shows "\<exists>site desc items.
      agent_insights cfg services w s n sv = LlmObject items
      \<and> d = lead_entries cfg w s' n site sv desc (agent_email_set cfg services w s n sv)
             ++ map_of items"
proof -
  obtain site s1 where a: "get_company_domain_agent cfg w s n = (site, s1)"
    by (cases "get_company_domain_agent cfg w s n")
  obtain ai s2 where b: "ai_enhance_company_info services w s1 n sv = (ai, s2)"
    by (cases "ai_enhance_company_info services w s1 n sv")
  obtain api s3 where c: "search_emails_with_api cfg w s2 n site = (api, s3)"
    by (cases "search_emails_with_api cfg w s2 n site")
  obtain final s4 where e: "(if length (set_update [] api) < max_emails_per_company cfg
     then scrape_contact_page cfg w s3 (or_empty site) (set_update [] api)
     else (set_update [] api, s3)) = (final, s4)"
    by (cases "(if length (set_update [] api) < max_emails_per_company cfg
     then scrape_contact_page cfg w s3 (or_empty site) (set_update [] api)
     else (set_update [] api, s3))")
  have es: "agent_email_set cfg services w s n sv = final"
    unfolding agent_email_set_def Let_def a prod.case b c e fst_conv by (rule refl)
  have ins: "agent_insights cfg services w s n sv = ai"
    unfolding agent_insights_def a prod.case b fst_conv by (rule refl)
  have info: "get_company_info_agent cfg services w s n sv =
    (if \<not> truthy site then (Inr None, s1)
     else (case map_of services sv of
             None \<Rightarrow> (Inl KeyError, s4)
           | Some description \<Rightarrow>
               (case ai of
                  LlmObject items \<Rightarrow>
                    (Inr (Some (lead_entries cfg w s4 n (or_empty site) sv description final
                                  ++ map_of items)), s4)
                | _ \<Rightarrow> (Inl TypeError, s4))))"
    unfolding get_company_info_agent_def Let_def a prod.case b c e by (rule refl)
  from res info show ?thesis
    by (auto simp: es ins split: if_splits option.splits llm_answer.splits)
qed

text \<open>
  Claim C7, as the code has it. A record of the base variant joins and counts the final
  email list, and its status is \<open>Success\<close> when that list is not empty and
  \<open>No emails found\<close> when it is. A record of the AI variant whose own insight
  object has no entry named \<open>status\<close> has the status \<open>Success\<close> when the final
  email set of the call is not empty and \<open>Partial\<close> whenever it is empty: no other
  signal is asked for. When the insight object has no entry named \<open>emails\<close> or
  \<open>email_count\<close> either, those two entries of the record are the first addresses of
  that set, up to the maximum, and its size.
\<close>

theorem status_follows_final_emails:
  "(fst (get_company_info cfg w s n cat) = Some r \<longrightarrow>
      emails r = join '', '' (final_emails cfg w s n)
      \<and> email_count r = length (final_emails cfg w s n)
      \<and> status r = (if final_emails cfg w s n \<noteq> [] then ''Success'' else ''No emails found''))
   \<and> (fst (get_company_info_agent cfg services w s n sv) = Inr (Some d)
        \<and> agent_insights cfg services w s n sv = LlmObject items
        \<and> ''status'' \<notin> fst ` set items \<longrightarrow>
      d ''status'' = Some (PStr (if agent_email_set cfg services w s n sv \<noteq> []
                                 then ''Success'' else ''Partial'')))
   \<and> (fst (get_company_info_agent cfg services w s n sv) = Inr (Some d)
        \<and> agent_insights cfg services w s n sv = LlmObject items
        \<and> ''emails'' \<notin> fst ` set items \<and> ''email_count'' \<notin> fst ` set items \<longrightarrow>
      d ''emails'' = Some (PStr (join '', '' (take (max_emails_per_company cfg)
                       (set_iter (set_order w) (agent_email_set cfg services w s n sv)))))
      \<and> d ''email_count'' = Some (PInt (int (length (agent_email_set cfg services w s n sv)))))"
proof (intro conjI impI)
  assume "fst (get_company_info cfg w s n cat) = Some r"
  then have res: "get_company_info cfg w s n cat = (Some r, snd (get_company_info cfg w s n cat))"
    by (simp add: prod_eq_iff)
  from get_company_info_record[OF res]
  show "emails r = join '', '' (final_emails cfg w s n)"
    and "email_count r = length (final_emails cfg w s n)"
    and "status r = (if final_emails cfg w s n \<noteq> [] then ''Success'' else ''No emails found'')"
    by simp_all
next
  assume a: "fst (get_company_info_agent cfg services w s n sv) = Inr (Some d)
        \<and> agent_insights cfg services w s n sv = LlmObject items
        \<and> ''status'' \<notin> fst ` set items"
  then have res: "get_company_info_agent cfg services w s n sv
      = (Inr (Some d), snd (get_company_info_agent cfg services w s n sv))"
    by (simp add: prod_eq_iff)
  from get_company_info_agent_record[OF res] a obtain site desc where
    "d = lead_entries cfg w (snd (get_company_info_agent cfg services w s n sv)) n site sv desc
           (agent_email_set cfg services w s n sv) ++ map_of items"
    by auto
  with a show "d ''status'' = Some (PStr (if agent_email_set cfg services w s n sv \<noteq> []
                                 then ''Success'' else ''Partial''))"
    by (simp add: map_add_miss lead_entries_status)
next
  assume a: "fst (get_company_info_agent cfg services w s n sv) = Inr (Some d)
        \<and> agent_insights cfg services w s n sv = LlmObject items
        \<and> ''emails'' \<notin> fst ` set items \<and> ''email_count'' \<notin> fst ` set items"
  then have res: "get_company_info_agent cfg services w s n sv
      = (Inr (Some d), snd (get_company_info_agent cfg services w s n sv))"
    by (simp add: prod_eq_iff)
  from get_company_info_agent_record[OF res] a obtain site desc where
    d: "d = lead_entries cfg w (snd (get_company_info_agent cfg services w s n sv)) n site sv desc
           (agent_email_set cfg services w s n sv) ++ map_of items"
    by auto
  from a d show "d ''emails'' = Some (PStr (join '', '' (take (max_emails_per_company cfg)
                       (set_iter (set_order w) (agent_email_set cfg services w s n sv)))))"
    by (simp add: map_add_miss lead_entries_emails)
  from a d show "d ''email_count'' = Some (PInt (int (length (agent_email_set cfg services w s n sv))))"
    by (simp add: map_add_miss lead_entries_count)
qed

theorem status_follows_final_emails_witness:
  "final_emails CONFIG two_page_env init_state ''Acme''
     = [''ann@acme.com'', ''bob@acme.com'', ''cat@acme.com'', ''dan@acme.com'', ''eve@acme.com'',
        ''fay@acme.com'', ''gus@acme.com'', ''hal@acme.com'', ''ian@acme.com'', ''joy@acme.com'']
   \<and> map_option status (fst (get_company_info CONFIG two_page_env init_state ''Acme''
       ''analytics and conversion tracking'')) = Some ''Success''
   \<and> final_emails CONFIG acme_env init_state ''Acme'' = []
   \<and> map_option status (fst (get_company_info CONFIG acme_env init_state ''Acme''
       ''analytics and conversion tracking'')) = Some ''No emails found''
   \<and> agent_insights CONFIG_agent SERVICES mixed_llm_env init_state ''Acme'' ''CRM Strategy''
       = LlmObject [(''potential_value'', PStr ''high'')]
   \<and> agent_email_set CONFIG_agent SERVICES mixed_llm_env init_state ''Acme'' ''CRM Strategy''
       = [''ann@acme.com'']
   \<and> record_field (fst (get_company_info_agent CONFIG_agent SERVICES mixed_llm_env init_state
         ''Acme'' ''CRM Strategy'')) ''status'' = Some (PStr ''Success'')
   \<and> agent_insights CONFIG_agent SERVICES insight_only_env init_state ''Acme'' ''CRM Strategy''
       = LlmObject [(''potential_value'', PStr ''high'')]
   \<and> agent_email_set CONFIG_agent SERVICES insight_only_env init_state ''Acme'' ''CRM Strategy''
       = []
   \<and> record_field (fst (get_company_info_agent CONFIG_agent SERVICES insight_only_env init_state
         ''Acme'' ''CRM Strategy'')) ''status'' = Some (PStr ''Partial'')"
proof -
  let ?cat = "''analytics and conversion tracking''"
  let ?two = "fst (get_company_info CONFIG two_page_env init_state ''Acme'' ?cat)"
  let ?one = "fst (get_company_info CONFIG acme_env init_state ''Acme'' ?cat)"
  let ?mixed = "fst (get_company_info_agent CONFIG_agent SERVICES mixed_llm_env init_state
      ''Acme'' ''CRM Strategy'')"
  let ?only = "fst (get_company_info_agent CONFIG_agent SERVICES insight_only_env init_state
      ''Acme'' ''CRM Strategy'')"
  let ?items = "[(''potential_value'', PStr ''high'')]"
  have key: "''status'' \<notin> fst ` set ?items" by simp
  have f2: "final_emails CONFIG two_page_env init_state ''Acme''
     = [''ann@acme.com'', ''bob@acme.com'', ''cat@acme.com'', ''dan@acme.com'', ''eve@acme.com'',
        ''fay@acme.com'', ''gus@acme.com'', ''hal@acme.com'', ''ian@acme.com'', ''joy@acme.com'']"
    by code_simp
  have "map_option company ?two = Some ''Acme''" by code_simp
  then obtain r where r: "?two = Some r" by auto
  from status_follows_final_emails[THEN conjunct1, rule_format, OF r]
  have a: "map_option status ?two = Some ''Success''" by (simp add: r f2)
  have f1: "final_emails CONFIG acme_env init_state ''Acme'' = []" by code_simp
  have "map_option company ?one = Some ''Acme''" by code_simp
  then obtain q where q: "?one = Some q" by auto
  from status_follows_final_emails[THEN conjunct1, rule_format, OF q]
  have b: "map_option status ?one = Some ''No emails found''" by (simp add: q f1)
  have im: "agent_insights CONFIG_agent SERVICES mixed_llm_env init_state ''Acme'' ''CRM Strategy''
       = LlmObject ?items"
    by code_simp
  have em: "agent_email_set CONFIG_agent SERVICES mixed_llm_env init_state ''Acme'' ''CRM Strategy''
       = [''ann@acme.com'']"
    by code_simp
  have "record_field ?mixed ''company'' = Some (PStr ''Acme'')" by code_simp
  then obtain d where d: "?mixed = Inr (Some d)"
    by (auto simp: record_field_def split: sum.splits option.splits)
  from status_follows_final_emails[THEN conjunct2, THEN conjunct1, rule_format,
      OF conjI[OF d conjI[OF im key]]]
  have c: "record_field ?mixed ''status'' = Some (PStr ''Success'')"
    by (simp add: record_field_def d em)
  have io: "agent_insights CONFIG_agent SERVICES insight_only_env init_state ''Acme'' ''CRM Strategy''
       = LlmObject ?items"
    by code_simp
  have eo: "agent_email_set CONFIG_agent SERVICES insight_only_env init_state ''Acme'' ''CRM Strategy''
       = []"
    by code_simp
  have "record_field ?only ''company'' = Some (PStr ''Acme'')" by code_simp
  then obtain e where e: "?only = Inr (Some e)"
    by (auto simp: record_field_def split: sum.splits option.splits)
  from status_follows_final_emails[THEN conjunct2, THEN conjunct1, rule_format,
      OF conjI[OF e conjI[OF io key]]]
  have g: "record_field ?only ''status'' = Some (PStr ''Partial'')"
    by (simp add: record_field_def e eo)
  from f2 a f1 b im em c io eo g show ?thesis by (intro conjI)
qed

text \<open>
  The claim as it is written fails in the AI variant. After the website, the signals the
  assembler gathers are the insight and the emails; here the insight request raises, so
  that the insight is the empty object, no email is found, and the status is
  \<open>Partial\<close> all the same.
\<close>

theorem partial_without_insight:
  "record_field (fst (get_company_info_agent CONFIG_agent SERVICES acme_env init_state
       ''Acme'' ''CRM Strategy'')) ''status'' = Some (PStr ''Partial'')
   \<and> record_field (fst (get_company_info_agent CONFIG_agent SERVICES acme_env init_state
       ''Acme'' ''CRM Strategy'')) ''emails'' = Some (PStr [])
   \<and> fst (ai_enhance_company_info SERVICES acme_env
         (snd (get_company_domain_agent CONFIG_agent acme_env init_state ''Acme''))
         ''Acme'' ''CRM Strategy'') = LlmObject []"
  by code_simp

text \<open>
  What the condition on the record's insight object is for: an insight with an entry
  named \<open>status\<close> replaces the status of the record, here of a record with one
  email.
\<close>

lemma insight_replaces_status:
  "record_field (fst (get_company_info_agent CONFIG_agent SERVICES hot_lead_env init_state
       ''Acme'' ''CRM Strategy'')) ''status'' = Some (PStr ''Hot lead'')
   \<and> record_field (fst (get_company_info_agent CONFIG_agent SERVICES hot_lead_env init_state
       ''Acme'' ''CRM Strategy'')) ''email_count'' = Some (PInt 1)"
  by code_simp

section \<open>The lead record: the emails it lists\<close>

text \<open>
  Claim C2 at a failing input of the base variant. The website and the contact page of
  \<open>Acme\<close> each show five addresses; every page is cut to the maximum of five, the
  union is not, and the record lists ten addresses.
\<close>

theorem base_record_lists_ten_emails:
  "map_option (\<lambda>r. (emails r, email_count r, length (listed_emails (emails r))))
     (fst (get_company_info CONFIG two_page_env init_state ''Acme''
        ''analytics and conversion tracking''))
     = Some (''ann@acme.com, bob@acme.com, cat@acme.com, dan@acme.com, eve@acme.com, fay@acme.com, gus@acme.com, hal@acme.com, ian@acme.com, joy@acme.com'', 10, 10)
   \<and> max_emails_per_company CONFIG = 5"
  by code_simp

text \<open>
  Claim C4 at a failing input of the base variant. The home page shows
  \<open>Sales@acme.com\<close> and \<open>sales@acme.com\<close>; the set keeps both, and the record lists
  two addresses that are equal but for the case of a letter.
\<close>

theorem base_record_keeps_case_variants:
  "map_option (\<lambda>r. listed_emails (emails r))
     (fst (get_company_info CONFIG mixed_case_env init_state ''Acme''
        ''analytics and conversion tracking''))
     = Some [''Sales@acme.com'', ''sales@acme.com'']
   \<and> same_ignoring_case ''Sales@acme.com'' ''sales@acme.com''"
  by code_simp

text \<open>
  Claim C10 at a failing input of the AI variant. The search API finds four addresses
  and the contact page five more; the record lists the first five of the nine, and its
  \<open>email_count\<close> is nine.
\<close>

theorem agent_email_count_exceeds_listed:
  "record_field (fst (get_company_info_agent CONFIG_agent SERVICES nine_emails_env init_state
       ''Acme'' ''CRM Strategy'')) ''emails''
     = Some (PStr ''ann@acme.com, bob@acme.com, cat@acme.com, dan@acme.com, fay@acme.com'')
   \<and> record_field (fst (get_company_info_agent CONFIG_agent SERVICES nine_emails_env init_state
       ''Acme'' ''CRM Strategy'')) ''email_count'' = Some (PInt 9)
   \<and> length (listed_emails ''ann@acme.com, bob@acme.com, cat@acme.com, dan@acme.com, fay@acme.com'') = 5"
  by code_simp

end
